theory Spec2Isabelle
  imports Complex_Main "HOL-Library.Word"
begin

unbundle bit_operations_syntax

section \<open>The audio service of the meeting transcriber\<close>

text \<open>
  A shallow embedding of the Go type \<open>AudioService\<close> (package \<open>services\<close>): the
  recording lifecycle, the stream callback, the elapsed-time query, the spectrum
  analyser, the resampler and the WAV writer.

  Conventions of the model.
  \<^item> \<open>int16\<close> is \<open>16 word\<close>, read as a signed value with \<open>sint\<close>; \<open>uint32\<close>,
    \<open>uint16\<close> and bytes are \<open>32 word\<close>, \<open>16 word\<close> and \<open>8 word\<close>.
  \<^item> A \<open>time.Time\<close> obtained from \<open>time.Now()\<close> is its monotonic clock reading in
    nanoseconds, an \<open>int\<close>; a \<open>time.Duration\<close> is an \<open>int\<close> of nanoseconds. Every
    call of \<open>time.Now()\<close> or \<open>time.Since\<close> in the source is one clock reading, and
    each reading is a separate argument of the model. The saturation of
    \<open>time.Since\<close> and the wrap-around of 64-bit durations, which need readings
    292 years apart, are left out.
  \<^item> \<open>float64\<close> is \<open>real\<close>: the arithmetic of the model is exact, and rounding,
    infinities and NaN are outside it. A conversion to \<open>int\<close> whose operand would
    be an infinity or NaN is a failure of the model.
  \<^item> The mutex serialises the methods and the callback, so each of them is one
    atomic function on the service value.
  \<^item> Everything the methods learn from PortAudio and the operating system is an
    argument: an environment record per call.
\<close>

subsection \<open>Constants and data\<close>

type_synonym int16 = "16 word"
type_synonym byte = "8 word"
type_synonym float64 = real

definition outputSampleRate :: nat where "outputSampleRate = 16000"
definition channels :: nat where "channels = 1"
definition bitDepth :: nat where "bitDepth = 16"
definition bufferSize :: nat where "bufferSize = 1024"
definition spectrumBands :: nat where "spectrumBands = 32"

datatype recordingState = stateIdle | stateRecording | statePaused

record AudioService =
  state :: recordingState
  stream :: "nat option"
  nativeSR :: float64
  samples :: "int16 list"
  startTime :: int
  elapsed :: int
  pauseStart :: int
  totalPaused :: int
  specBuf :: "int16 list"

text \<open>The zero value of the struct, as \<open>main.go\<close> registers it.\<close>

definition newAudioService :: AudioService where
  "newAudioService =
     \<lparr>state = stateIdle, stream = None, nativeSR = 0, samples = [], startTime = 0,
      elapsed = 0, pauseStart = 0, totalPaused = 0, specBuf = []\<rparr>"

text \<open>
  One constructor per \<open>fmt.Errorf\<close> of the source, and \<open>CreateFailed\<close> for the
  error of \<open>os.Create\<close> that \<open>writeWAV\<close> returns as it is. The state carried by
  the first three is the \<open>%s\<close> of the message.
\<close>

datatype error =
    CannotStart recordingState
  | CannotPause recordingState
  | CannotResume recordingState
  | NotRecording
  | HostApiFailed
  | NoInputDevice
  | OpenStreamFailed
  | StartStreamFailed
  | StopStreamFailed
  | CreateFailed
  | WriteWAVFailed

text \<open>The four kinds of failure of the specification, and the kind of each error.\<close>

datatype errorKind = InvalidState | DeviceError | StreamError | IOError

fun kind :: "error \<Rightarrow> errorKind" where
  "kind (CannotStart _) = InvalidState"
| "kind (CannotPause _) = InvalidState"
| "kind (CannotResume _) = InvalidState"
| "kind NotRecording = InvalidState"
| "kind HostApiFailed = DeviceError"
| "kind NoInputDevice = DeviceError"
| "kind OpenStreamFailed = StreamError"
| "kind StartStreamFailed = StreamError"
| "kind StopStreamFailed = StreamError"
| "kind CreateFailed = IOError"
| "kind WriteWAVFailed = IOError"

subsection \<open>The stream callback\<close>

text \<open>
  The closure passed to \<open>portaudio.OpenDefaultStream\<close>: the block always replaces
  the spectrum buffer, and is appended to the samples only while recording.
\<close>

definition callback :: "int16 list \<Rightarrow> AudioService \<Rightarrow> AudioService" where
  "callback inp a =
     (let a1 = a\<lparr>specBuf := inp\<rparr>
      in if state a1 = stateRecording then a1\<lparr>samples := samples a1 @ inp\<rparr> else a1)"

subsection \<open>Start, pause, resume\<close>

text \<open>
  What \<open>StartRecording\<close> learns from PortAudio: whether \<open>DefaultHostApi\<close> fails,
  the default sample rate of the default input device (\<open>None\<close> for a nil device),
  the stream that \<open>OpenDefaultStream\<close> returns (\<open>None\<close> for an error), whether
  \<open>stream.Start\<close> fails, and the clock reading of \<open>time.Now()\<close>.
\<close>

record startEnv =
  hostApiErr :: bool
  defaultInputDevice :: "float64 option"
  openedStream :: "nat option"
  streamStartErr :: bool
  startNow :: int

definition StartRecording :: "startEnv \<Rightarrow> AudioService \<Rightarrow> error option \<times> AudioService" where
  "StartRecording env a =
     (if state a \<noteq> stateIdle then (Some (CannotStart (state a)), a)
      else if hostApiErr env then (Some HostApiFailed, a)
      else case defaultInputDevice env of
        None \<Rightarrow> (Some NoInputDevice, a)
      | Some rate \<Rightarrow>
          (let a1 = a\<lparr>nativeSR := rate, samples := [], totalPaused := 0, specBuf := []\<rparr>
           in case openedStream env of
                None \<Rightarrow> (Some OpenStreamFailed, a1)
              | Some st \<Rightarrow>
                  if streamStartErr env then (Some StartStreamFailed, a1)
                  else (None, a1\<lparr>stream := Some st, state := stateRecording,
                                   startTime := startNow env\<rparr>)))"

definition PauseRecording :: "int \<Rightarrow> AudioService \<Rightarrow> error option \<times> AudioService" where
  "PauseRecording now a =
     (if state a \<noteq> stateRecording then (Some (CannotPause (state a)), a)
      else (None, a\<lparr>state := statePaused, pauseStart := now\<rparr>))"

definition ResumeRecording :: "int \<Rightarrow> AudioService \<Rightarrow> error option \<times> AudioService" where
  "ResumeRecording now a =
     (if state a \<noteq> statePaused then (Some (CannotResume (state a)), a)
      else (None, a\<lparr>totalPaused := totalPaused a + (now - pauseStart a),
                      state := stateRecording\<rparr>))"

subsection \<open>Elapsed time\<close>

text \<open>
  \<open>Duration.Seconds\<close> of the standard library: the whole seconds plus the
  remaining nanoseconds over \<open>10 ^ 9\<close>, which is the duration over \<open>10 ^ 9\<close>.
\<close>

definition Seconds :: "int \<Rightarrow> float64" where
  "Seconds d = real_of_int d / 1000000000"

text \<open>
  In the paused branch the source calls \<open>time.Since\<close> twice, first on
  \<open>startTime\<close> and then on \<open>pauseStart\<close>: \<open>now1\<close> and \<open>now2\<close> are the two
  readings, in the order of evaluation. The recording branch makes one reading,
  \<open>now1\<close>, and the idle branch none.
\<close>

definition GetElapsedTime :: "int \<Rightarrow> int \<Rightarrow> AudioService \<Rightarrow> float64" where
  "GetElapsedTime now1 now2 a =
     (case state a of
        stateRecording \<Rightarrow> Seconds ((now1 - startTime a) - totalPaused a)
      | statePaused \<Rightarrow>
          Seconds ((now1 - startTime a) - totalPaused a - (now2 - pauseStart a))
      | stateIdle \<Rightarrow> Seconds (elapsed a))"

definition GetRecordingState :: "AudioService \<Rightarrow> string" where
  "GetRecordingState a =
     (case state a of
        stateRecording \<Rightarrow> ''recording''
      | statePaused \<Rightarrow> ''paused''
      | stateIdle \<Rightarrow> ''idle'')"

subsection \<open>Run-time failures\<close>

text \<open>
  A call either returns or stops in a run-time panic. \<open>IndexOutOfRange\<close> is an
  index outside a slice, \<open>MakeSliceLenOutOfRange\<close> is \<open>make\<close> with a negative
  length, \<open>NilDereference\<close> is a method call through a nil stream.
  \<open>NonFiniteToInt\<close> is not a panic of its own: it marks the conversion to
  \<open>int\<close> of a quotient by zero (an infinity or NaN), whose value Go leaves to
  the implementation; the model stops there.
\<close>

datatype panic = IndexOutOfRange | MakeSliceLenOutOfRange | NilDereference | NonFiniteToInt

datatype 'a outcome = Return 'a | Panic panic

text \<open>A loop that fills a slice element by element and stops at the first panic.\<close>

fun mapOutcome :: "('a \<Rightarrow> 'b outcome) \<Rightarrow> 'a list \<Rightarrow> 'b list outcome" where
  "mapOutcome f [] = Return []"
| "mapOutcome f (x # xs) =
     (case f x of
        Panic p \<Rightarrow> Panic p
      | Return y \<Rightarrow>
          (case mapOutcome f xs of
             Panic p \<Rightarrow> Panic p
           | Return ys \<Rightarrow> Return (y # ys)))"

subsection \<open>The resampler\<close>

text \<open>
  \<open>goInt\<close> is the conversion \<open>int(x)\<close> of a finite value, which truncates
  towards zero; \<open>toInt16\<close> is \<open>int16(x)\<close>, the same truncation into 16 bits;
  \<open>toFloat\<close> is \<open>float64(s)\<close> of a sample.
\<close>

definition goInt :: "float64 \<Rightarrow> int" where
  "goInt x = (if 0 \<le> x then \<lfloor>x\<rfloor> else \<lceil>x\<rceil>)"

definition toInt16 :: "float64 \<Rightarrow> int16" where
  "toInt16 x = word_of_int (goInt x)"

definition toFloat :: "int16 \<Rightarrow> float64" where
  "toFloat s = real_of_int (sint s)"

text \<open>The body of the loop of \<open>downsample\<close> for the output index \<open>i\<close>.\<close>

definition downsampleAt :: "float64 \<Rightarrow> int16 list \<Rightarrow> nat \<Rightarrow> int16 outcome" where
  "downsampleAt ratio xs i =
     (let srcPos = real i * ratio;
          idx = goInt srcPos;
          frac = srcPos - real_of_int idx
      in if idx + 1 < int (length xs) then
           (if idx < 0 then Panic IndexOutOfRange
            else Return (toInt16 (toFloat (xs ! nat idx) * (1 - frac)
                                  + toFloat (xs ! nat (idx + 1)) * frac)))
         else if idx < int (length xs) then
           (if idx < 0 then Panic IndexOutOfRange else Return (xs ! nat idx))
         else Return 0)"

definition downsample :: "AudioService \<Rightarrow> int16 list outcome" where
  "downsample a =
     (if nativeSR a = real outputSampleRate then Return (samples a)
      else
        let ratio = nativeSR a / real outputSampleRate
        in if ratio = 0 then Panic NonFiniteToInt
           else
             let outLen = goInt (real (length (samples a)) / ratio)
             in if outLen < 0 then Panic MakeSliceLenOutOfRange
                else mapOutcome (downsampleAt ratio (samples a)) [0 ..< nat outLen])"


text \<open>A service with the given native rate and samples.\<close>

definition atRate :: "float64 \<Rightarrow> int16 list \<Rightarrow> AudioService" where
  "atRate rate xs = newAudioService\<lparr>nativeSR := rate, samples := xs\<rparr>"

subsection \<open>The WAV writer\<close>

definition ascii :: "string \<Rightarrow> byte list" where
  "ascii s = map (\<lambda>c. of_nat (of_char c)) s"

text \<open>\<open>binary.Write\<close> with \<open>binary.LittleEndian\<close>: the low byte first.\<close>

definition le16 :: "16 word \<Rightarrow> byte list" where
  "le16 w = [ucast w, ucast (drop_bit 8 w)]"

definition le32 :: "32 word \<Rightarrow> byte list" where
  "le32 w = [ucast w, ucast (drop_bit 8 w), ucast (drop_bit 16 w), ucast (drop_bit 24 w)]"

text \<open>
  The writes of \<open>writeWAV\<close>, one list element per call of \<open>f.Write\<close> or
  \<open>binary.Write\<close>, in the order of the source. \<open>dataSize\<close> is
  \<open>uint32(len(samples) * 2)\<close> and \<open>fileSize\<close> is \<open>36 + dataSize\<close> in \<open>uint32\<close>:
  both wrap around at \<open>2 ^ 32\<close>.
\<close>

definition dataSize :: "int16 list \<Rightarrow> 32 word" where
  "dataSize smp = word_of_nat (length smp * 2)"

definition fileSize :: "int16 list \<Rightarrow> 32 word" where
  "fileSize smp = 36 + dataSize smp"

definition wavChunks :: "int16 list \<Rightarrow> byte list list" where
  "wavChunks smp =
     [ascii ''RIFF'',
      le32 (fileSize smp),
      ascii ''WAVE'',
      ascii ''fmt '',
      le32 16,
      le16 1,
      le16 (word_of_nat channels),
      le32 (word_of_nat outputSampleRate),
      le32 (word_of_nat (outputSampleRate * channels * bitDepth div 8)),
      le16 (word_of_nat (channels * bitDepth div 8)),
      le16 (word_of_nat bitDepth),
      ascii ''data'',
      le32 (dataSize smp),
      concat (map le16 smp)]"

definition wavBytes :: "int16 list \<Rightarrow> byte list" where
  "wavBytes smp = concat (wavChunks smp)"

text \<open>
  The file system maps a path to the content of the file there. An open file is
  its content so far and the number of bytes it still accepts (\<open>None\<close>: no
  limit). A write appends as much of its buffer as the file accepts; when it
  cannot append all of it, the call returns an error, which \<open>writeWAV\<close> does
  not look at, so the model does not return it.
\<close>

type_synonym fileSystem = "string \<rightharpoonup> byte list"

type_synonym openFile = "byte list \<times> nat option"

definition fwrite :: "openFile \<Rightarrow> byte list \<Rightarrow> openFile" where
  "fwrite f buf =
     (case snd f of
        None \<Rightarrow> (fst f @ buf, None)
      | Some k \<Rightarrow> (fst f @ take k buf, Some (k - length buf)))"

text \<open>
  What \<open>writeWAV\<close> learns from the operating system: the path
  \<open>filepath.Join(os.TempDir(), "meeting_<time>.wav")\<close>, whether \<open>os.Create\<close>
  fails, and the number of bytes the created file accepts.
\<close>

record wavEnv =
  wavPath :: string
  createErr :: bool
  writable :: "nat option"

definition writeWAV ::
  "wavEnv \<Rightarrow> fileSystem \<Rightarrow> AudioService \<Rightarrow> (error + string) outcome \<times> fileSystem" where
  "writeWAV env fs a =
     (case downsample a of
        Panic p \<Rightarrow> (Panic p, fs)
      | Return smp \<Rightarrow>
          if createErr env then (Return (Inl CreateFailed), fs)
          else
            let f = foldl fwrite ([], writable env) (wavChunks smp)
            in (Return (Inr (wavPath env)), fs(wavPath env \<mapsto> fst f)))"

subsection \<open>Stop\<close>

text \<open>
  What \<open>StopRecording\<close> learns from outside: the reading of the clock by
  \<open>time.Since(a.pauseStart)\<close>, made only when paused; the later reading by
  \<open>time.Since(a.startTime)\<close>; whether \<open>stream.Stop\<close> fails; and the
  environment of \<open>writeWAV\<close>.
\<close>

record stopEnv =
  pauseNow :: int
  elapsedNow :: int
  streamStopErr :: bool
  wav :: wavEnv

definition StopRecording ::
  "stopEnv \<Rightarrow> fileSystem \<Rightarrow> AudioService
     \<Rightarrow> (error + string) outcome \<times> AudioService \<times> fileSystem" where
  "StopRecording env fs a =
     (if state a = stateIdle then (Return (Inl NotRecording), a, fs)
      else
        let a1 = (if state a = statePaused
                  then a\<lparr>totalPaused := totalPaused a + (pauseNow env - pauseStart a)\<rparr>
                  else a);
            a2 = a1\<lparr>elapsed := (elapsedNow env - startTime a1) - totalPaused a1\<rparr>
        in case stream a2 of
             None \<Rightarrow> (Panic NilDereference, a2, fs)
           | Some st \<Rightarrow>
               if streamStopErr env
               then (Return (Inl StopStreamFailed), a2\<lparr>state := stateIdle\<rparr>, fs)
               else
                 let a3 = a2\<lparr>state := stateIdle\<rparr>
                 in case writeWAV (wav env) fs a3 of
                      (Panic p, fs') \<Rightarrow> (Panic p, a3, fs')
                    | (Return (Inl e), fs') \<Rightarrow> (Return (Inl WriteWAVFailed), a3, fs')
                    | (Return (Inr path), fs') \<Rightarrow> (Return (Inr path), a3, fs'))"

subsection \<open>The spectrum analyser\<close>

text \<open>
  The edge of the logarithmic bands between 80 Hz and 12 kHz:
  \<open>math.Pow(2, logMin + (logMax - logMin) * band / spectrumBands)\<close>.
\<close>

definition bandEdge :: "nat \<Rightarrow> float64" where
  "bandEdge b = 2 powr (log 2 80 + (log 2 12000 - log 2 80) * real b / real spectrumBands)"

text \<open>
  The magnitude of the DFT bin \<open>k\<close>: the inner loop over the buffer, then
  \<open>math.Sqrt(re*re + im*im) / n\<close>.
\<close>

definition dftMag :: "int16 list \<Rightarrow> int \<Rightarrow> float64" where
  "dftMag buf k =
     (let n = length buf;
          (re, im) =
            foldl (\<lambda>(re, im) (i, s).
                     let angle = 2 * pi * real_of_int k * real i / real n
                     in (re + toFloat s * cos angle, im - toFloat s * sin angle))
              (0, 0) (enumerate 0 buf)
      in sqrt (re * re + im * im) / real n)"

text \<open>The bins of a band, after the three clamps of the source.\<close>

definition bandRange :: "float64 \<Rightarrow> int \<Rightarrow> nat \<Rightarrow> int \<times> int" where
  "bandRange freqRes maxBin band =
     (let fLow = bandEdge band;
          fHigh = bandEdge (band + 1);
          kLow = goInt (fLow / freqRes);
          kHigh = goInt (fHigh / freqRes);
          kLow = (if kLow < 1 then 1 else kLow);
          kHigh = (if kHigh > maxBin then maxBin else kHigh);
          kHigh = (if kHigh < kLow then kLow else kHigh)
      in (kLow, kHigh))"

text \<open>
  The loop \<open>for k := kLow; k <= kHigh; k++\<close> over the indices \<open>[kLow .. kHigh]\<close>:
  each step reads \<open>mags[k]\<close>, which panics outside the slice.
\<close>

fun sumBins :: "float64 list \<Rightarrow> int list \<Rightarrow> float64 \<times> nat \<Rightarrow> (float64 \<times> nat) outcome" where
  "sumBins mags [] acc = Return acc"
| "sumBins mags (k # ks) (sm, cnt) =
     (if 0 \<le> k \<and> k < int (length mags)
      then sumBins mags ks (sm + mags ! nat k, cnt + 1)
      else Panic IndexOutOfRange)"

text \<open>The average of the band, divided by 800, compressed by the logarithm and clamped.\<close>

definition bandValue :: "float64 \<times> nat \<Rightarrow> float64" where
  "bandValue sc =
     (let sm = (if snd sc > 0 then fst sc / real (snd sc) else fst sc);
          normalized = sm / 800;
          normalized = (if normalized > 0 then log 10 (normalized * 9 + 1) / log 10 10
                        else normalized)
      in if normalized > 1 then 1 else normalized)"

text \<open>The highest evaluated bin: \<open>int(maxFreq / freqRes) + 1\<close>, at most \<open>n / 2\<close>.\<close>

definition maxBinOf :: "float64 \<Rightarrow> nat \<Rightarrow> int" where
  "maxBinOf freqRes n =
     (let maxBin = goInt (12000 / freqRes) + 1
      in if maxBin > int (n div 2) then int (n div 2) else maxBin)"

text \<open>
  The slice \<open>mags\<close> of length \<open>maxBin + 1\<close>: element 0 stays zero, the elements
  from 1 to \<open>maxBin\<close> are the magnitudes.
\<close>

definition magnitudes :: "int16 list \<Rightarrow> int \<Rightarrow> float64 list" where
  "magnitudes buf maxBin = map (\<lambda>k. if k = 0 then 0 else dftMag buf k) [0 .. maxBin]"

text \<open>The body of the loop over the bands.\<close>

definition bandMagnitude :: "float64 \<Rightarrow> int \<Rightarrow> float64 list \<Rightarrow> nat \<Rightarrow> float64 outcome" where
  "bandMagnitude freqRes maxBin mags band =
     (case bandRange freqRes maxBin band of
        (kLow, kHigh) \<Rightarrow>
          (case sumBins mags [kLow .. kHigh] (0, 0) of
             Panic p \<Rightarrow> Panic p
           | Return sc \<Rightarrow> Return (bandValue sc)))"

text \<open>
  \<open>GetSpectrum\<close> on the snapshot of \<open>specBuf\<close> and \<open>nativeSR\<close> it takes under
  the lock. A panic in a band ends the call.
\<close>

definition GetSpectrum :: "AudioService \<Rightarrow> float64 list outcome" where
  "GetSpectrum a =
     (let buf = specBuf a; sr = nativeSR a
      in if length buf = 0 \<or> sr = 0 then Return (replicate spectrumBands 0)
         else
           let n = length buf;
               freqRes = sr / real n;
               maxBin = maxBinOf freqRes n
           in if maxBin + 1 < 0 then Panic MakeSliceLenOutOfRange
              else mapOutcome (bandMagnitude freqRes maxBin (magnitudes buf maxBin))
                     [0 ..< spectrumBands])"

subsection \<open>Sequences of lifecycle calls\<close>

text \<open>
  A lifecycle call with what it learns from outside, and a run of such calls on
  the service and the file system. The reply of a call is its error, if any; a
  call that panics leaves the service as it was at the panic, and the run goes on
  from there (the caller recovered).
\<close>

datatype call = Start startEnv | Pause int | Resume int | Stop stopEnv

fun step ::
  "call \<Rightarrow> AudioService \<times> fileSystem \<Rightarrow> error option outcome \<times> AudioService \<times> fileSystem" where
  "step (Start env) (a, fs) = (case StartRecording env a of (r, a') \<Rightarrow> (Return r, a', fs))"
| "step (Pause now) (a, fs) = (case PauseRecording now a of (r, a') \<Rightarrow> (Return r, a', fs))"
| "step (Resume now) (a, fs) = (case ResumeRecording now a of (r, a') \<Rightarrow> (Return r, a', fs))"
| "step (Stop env) (a, fs) =
     (case StopRecording env fs a of
        (Panic p, a', fs') \<Rightarrow> (Panic p, a', fs')
      | (Return (Inl e), a', fs') \<Rightarrow> (Return (Some e), a', fs')
      | (Return (Inr path), a', fs') \<Rightarrow> (Return None, a', fs'))"

text \<open>The reply of every call of a run, with the service after the call.\<close>

fun trace ::
  "call list \<Rightarrow> AudioService \<times> fileSystem \<Rightarrow> (error option outcome \<times> AudioService) list" where
  "trace [] w = []"
| "trace (c # cs) w = (case step c w of (r, a', fs') \<Rightarrow> (r, a') # trace cs (a', fs'))"

text \<open>A reply is a rejection when it is an error of the kind \<open>InvalidState\<close>.\<close>

fun rejected :: "error option outcome \<Rightarrow> bool" where
  "rejected (Return (Some e)) = (kind e = InvalidState)"
| "rejected _ = False"

text \<open>
  The transition table of the specification: the state a call leads to, or
  \<open>None\<close> where the state violates the precondition of the call.
\<close>

fun table :: "recordingState \<Rightarrow> call \<Rightarrow> recordingState option" where
  "table stateIdle (Start _) = Some stateRecording"
| "table stateRecording (Pause _) = Some statePaused"
| "table statePaused (Resume _) = Some stateRecording"
| "table stateRecording (Stop _) = Some stateIdle"
| "table statePaused (Stop _) = Some stateIdle"
| "table _ _ = None"

text \<open>
  The run that the table alone predicts: a call is rejected, and the state stays,
  where the table has no entry; otherwise the state is the entry.
\<close>

fun tableRun :: "recordingState \<Rightarrow> call list \<Rightarrow> (bool \<times> recordingState) list" where
  "tableRun st [] = []"
| "tableRun st (c # cs) =
     (case table st c of
        None \<Rightarrow> (True, st) # tableRun st cs
      | Some t \<Rightarrow> (False, t) # tableRun t cs)"

text \<open>
  \<open>Start\<close> fails for a reason other than the state when PortAudio has no host
  API, no input device, cannot open the stream or cannot start it.
\<close>

definition startFails :: "startEnv \<Rightarrow> bool" where
  "startFails env \<longleftrightarrow>
     hostApiErr env \<or> defaultInputDevice env = None \<or> openedStream env = None
     \<or> streamStartErr env"

text \<open>The table with that failure: a \<open>Start\<close> that fails so is not rejected and stays Idle.\<close>

fun tableStep :: "recordingState \<Rightarrow> call \<Rightarrow> bool \<times> recordingState" where
  "tableStep st c =
     (case table st c of
        None \<Rightarrow> (True, st)
      | Some t \<Rightarrow>
          (case c of
             Start env \<Rightarrow> (False, if startFails env then st else t)
           | _ \<Rightarrow> (False, t)))"

fun deviceRun :: "recordingState \<Rightarrow> call list \<Rightarrow> (bool \<times> recordingState) list" where
  "deviceRun st [] = []"
| "deviceRun st (c # cs) = tableStep st c # deviceRun (snd (tableStep st c)) cs"

text \<open>Outside Idle the service holds a stream: \<open>StartRecording\<close> stores it with the state.\<close>

definition hasStream :: "AudioService \<Rightarrow> bool" where
  "hasStream a \<longleftrightarrow> state a = stateIdle \<or> stream a \<noteq> None"

subsection \<open>Reading a container back\<close>

text \<open>
  A reader of the canonical 44-byte header, to state what a consumer of the file
  sees: little-endian integers at fixed offsets, then as many payload bytes as the
  data sub-block declares, two per sample.
\<close>

fun de16 :: "byte list \<Rightarrow> 16 word" where
  "de16 (b0 # b1 # _) = ucast b0 OR push_bit 8 (ucast b1)"
| "de16 _ = 0"

fun de32 :: "byte list \<Rightarrow> 32 word" where
  "de32 (b0 # b1 # b2 # b3 # _) =
     ucast b0 OR push_bit 8 (ucast b1) OR push_bit 16 (ucast b2) OR push_bit 24 (ucast b3)"
| "de32 _ = 0"

definition u16At :: "byte list \<Rightarrow> nat \<Rightarrow> nat" where
  "u16At bs off = unat (de16 (take 2 (drop off bs)))"

definition u32At :: "byte list \<Rightarrow> nat \<Rightarrow> nat" where
  "u32At bs off = unat (de32 (take 4 (drop off bs)))"

fun readSamples :: "byte list \<Rightarrow> int16 list" where
  "readSamples (b0 # b1 # bs) = de16 [b0, b1] # readSamples bs"
| "readSamples _ = []"

record wavInfo =
  riffTag :: "byte list"
  riffSize :: nat
  waveTag :: "byte list"
  fmtTag :: "byte list"
  fmtSize :: nat
  audioFormat :: nat
  numChannels :: nat
  sampleRate :: nat
  byteRate :: nat
  blockAlign :: nat
  bitsPerSample :: nat
  dataTag :: "byte list"
  dataBytes :: nat
  payload :: "int16 list"

definition readWAV :: "byte list \<Rightarrow> wavInfo" where
  "readWAV bs =
     \<lparr>riffTag = take 4 bs,
      riffSize = u32At bs 4,
      waveTag = take 4 (drop 8 bs),
      fmtTag = take 4 (drop 12 bs),
      fmtSize = u32At bs 16,
      audioFormat = u16At bs 20,
      numChannels = u16At bs 22,
      sampleRate = u32At bs 24,
      byteRate = u32At bs 28,
      blockAlign = u16At bs 32,
      bitsPerSample = u16At bs 34,
      dataTag = take 4 (drop 36 bs),
      dataBytes = u32At bs 40,
      payload = readSamples (take (u32At bs 40) (drop 44 bs))\<rparr>"

text \<open>The 44 bytes that \<open>writeWAV\<close> writes before the samples.\<close>

definition wavHeader :: "int16 list \<Rightarrow> byte list" where
  "wavHeader smp =
     ascii ''RIFF'' @ le32 (fileSize smp) @ ascii ''WAVE'' @ ascii ''fmt '' @ le32 16 @ le16 1
     @ le16 1 @ le32 16000 @ le32 32000 @ le16 2 @ le16 16 @ ascii ''data'' @ le32 (dataSize smp)"


subsection \<open>Environments and services of the examples\<close>

definition device :: "float64 \<Rightarrow> int \<Rightarrow> startEnv" where
  "device rate now =
     \<lparr>hostApiErr = False, defaultInputDevice = Some rate, openedStream = Some 1,
      streamStartErr = False, startNow = now\<rparr>"

definition noDevice :: startEnv where
  "noDevice =
     \<lparr>hostApiErr = False, defaultInputDevice = None, openedStream = None,
      streamStartErr = False, startNow = 0\<rparr>"

definition disk :: "string \<Rightarrow> nat option \<Rightarrow> wavEnv" where
  "disk path k = \<lparr>wavPath = path, createErr = False, writable = k\<rparr>"

definition stopAt :: "int \<Rightarrow> int \<Rightarrow> wavEnv \<Rightarrow> stopEnv" where
  "stopAt t1 t2 w = \<lparr>pauseNow = t1, elapsedNow = t2, streamStopErr = False, wav = w\<rparr>"

definition idleAfterSession :: AudioService where
  "idleAfterSession =
     \<lparr>state = stateIdle, stream = Some 1, nativeSR = 48000, samples = [1, 2, 3], startTime = 0,
      elapsed = 70, pauseStart = 40, totalPaused = 30, specBuf = [9]\<rparr>"

definition pausedService :: AudioService where
  "pausedService =
     \<lparr>state = statePaused, stream = Some 1, nativeSR = 16000, samples = [], startTime = 0,
      elapsed = 0, pauseStart = 10, totalPaused = 0, specBuf = []\<rparr>"

definition block16k :: "int16 \<Rightarrow> AudioService" where
  "block16k s = newAudioService\<lparr>nativeSR := 16000, specBuf := replicate 1024 s\<rparr>"


section \<open>Properties\<close>

subsection \<open>The callback\<close>

text \<open>
  C8. For every block, the empty one included, and in every state: after the
  callback the spectrum buffer is the block; the samples are extended by the block
  when the state is Recording and are unchanged when it is Paused or Idle; for a
  non-empty block the samples are extended exactly when the state is Recording;
  no other field changes.
\<close>

theorem callback_effect:
  "specBuf (callback B a) = B
   \<and> samples (callback B a) = (if state a = stateRecording then samples a @ B else samples a)
   \<and> (B \<noteq> [] \<longrightarrow> (samples (callback B a) = samples a @ B \<longleftrightarrow> state a = stateRecording))
   \<and> callback B a = a\<lparr>specBuf := B, samples := samples (callback B a)\<rparr>"
  by (simp add: callback_def Let_def)

theorem callback_effect_witness:
  "[1, 2] \<noteq> ([] :: int16 list)
   \<and> samples (callback [1, 2] (newAudioService\<lparr>state := stateRecording, samples := [7]\<rparr>)) = [7, 1, 2]
   \<and> samples (callback [1, 2] (newAudioService\<lparr>state := statePaused, samples := [7]\<rparr>)) = [7]
   \<and> specBuf (callback [] (newAudioService\<lparr>specBuf := [5]\<rparr>)) = []"
  using callback_effect [of "[1, 2]" "newAudioService\<lparr>state := stateRecording, samples := [7]\<rparr>"]
        callback_effect [of "[1, 2]" "newAudioService\<lparr>state := statePaused, samples := [7]\<rparr>"]
        callback_effect [of "[]" "newAudioService\<lparr>specBuf := [5]\<rparr>"]
  by (simp add: newAudioService_def)

subsection \<open>The lifecycle\<close>

lemma step_state:
  assumes "hasStream a"
  shows "state (fst (snd (step c (a, fs)))) = snd (tableStep (state a) c)"
  using assms
  by (cases c; cases "state a")
     (auto simp: StartRecording_def PauseRecording_def ResumeRecording_def StopRecording_def
        startFails_def hasStream_def Let_def
        split: option.splits prod.splits outcome.splits sum.splits)

lemma step_rejected:
  assumes "hasStream a"
  shows "rejected (fst (step c (a, fs))) = fst (tableStep (state a) c)"
  using assms
  by (cases c; cases "state a")
     (auto simp: StartRecording_def PauseRecording_def ResumeRecording_def StopRecording_def
        startFails_def hasStream_def Let_def
        split: option.splits prod.splits outcome.splits sum.splits)

lemma step_hasStream:
  assumes "hasStream a"
  shows "hasStream (fst (snd (step c (a, fs))))"
  using assms
  by (cases c; cases "state a")
     (auto simp: StartRecording_def PauseRecording_def ResumeRecording_def StopRecording_def
        startFails_def hasStream_def Let_def
        split: option.splits prod.splits outcome.splits sum.splits)

text \<open>A rejected call changes nothing, neither in the service nor in the file system.\<close>

lemma step_rejected_unchanged:
  assumes "table (state a) c = None"
  shows "snd (step c (a, fs)) = (a, fs)"
  using assms
  by (cases c; cases "state a")
     (auto simp: StartRecording_def PauseRecording_def ResumeRecording_def StopRecording_def)

text \<open>A \<open>Start\<close> in Idle that fails reports a device or stream error, never \<open>InvalidState\<close>.\<close>

lemma start_failure_kind:
  assumes "state a = stateIdle" and "startFails env"
  shows "\<exists>e. fst (StartRecording env a) = Some e \<and> kind e \<in> {DeviceError, StreamError}"
  using assms
  by (auto simp: StartRecording_def startFails_def Let_def split: option.splits)

text \<open>
  C1, as it is claimed, fails: a \<open>Start\<close> in Idle satisfies the precondition of the
  table, which sends it to Recording, but with no input device the call returns
  an error that is not a rejection and the state stays Idle.
\<close>

theorem lifecycle_table_counterexample:
  "map (\<lambda>(r, a'). (rejected r, state a')) (trace [Start noDevice] (newAudioService, Map.empty))
     = [(False, stateIdle)]
   \<and> tableRun (state newAudioService) [Start noDevice] = [(False, stateRecording)]"
  by (simp add: StartRecording_def newAudioService_def noDevice_def)

text \<open>
  C1, amended. For every sequence of calls to Start, Pause, Resume and Stop, from
  a service that holds a stream whenever it is not Idle (as every service
  reached from the initial one does): after each call the state is the one of
  the transition table, except that a Start in Idle whose device discovery,
  stream open or stream start fails leaves the state Idle without being
  rejected; and a call is rejected with an \<open>InvalidState\<close> error exactly when the
  state violates its precondition, the state staying as it was.
\<close>

theorem lifecycle_follows_table:
  assumes "hasStream a"
  shows "map (\<lambda>(r, a'). (rejected r, state a')) (trace cs (a, fs)) = deviceRun (state a) cs"
  using assms
proof (induction cs arbitrary: a fs)
  case Nil
  then show ?case by simp
next
  case (Cons c cs)
  obtain r a' fs' where s: "step c (a, fs) = (r, a', fs')"
    by (cases "step c (a, fs)") auto
  have 1: "state a' = snd (tableStep (state a) c)"
    using step_state [OF Cons.prems, of c fs] s by simp
  have 2: "rejected r = fst (tableStep (state a) c)"
    using step_rejected [OF Cons.prems, of c fs] s by simp
  have 3: "hasStream a'"
    using step_hasStream [OF Cons.prems, of c fs] s by simp
  have "(rejected r, state a') = tableStep (state a) c"
    using 1 2 by (simp add: prod_eq_iff)
  then show ?case
    using Cons.IH [OF 3, of fs'] s 1 by (simp del: tableStep.simps)
qed

theorem lifecycle_follows_table_witness:
  "hasStream newAudioService
   \<and> map (\<lambda>(r, a'). (rejected r, state a'))
       (trace [Start (device 48000 0), Pause 5, Pause 6, Resume 9, Start (device 48000 10),
               Stop (stopAt 12 12 (disk ''/tmp/m.wav'' None)),
               Stop (stopAt 13 13 (disk ''/tmp/m.wav'' None)), Start noDevice]
          (newAudioService, Map.empty))
     = [(False, stateRecording), (False, statePaused), (True, statePaused),
        (False, stateRecording), (True, stateRecording), (False, stateIdle),
        (True, stateIdle), (False, stateIdle)]"
  using lifecycle_follows_table [of newAudioService
      "[Start (device 48000 0), Pause 5, Pause 6, Resume 9, Start (device 48000 10),
        Stop (stopAt 12 12 (disk ''/tmp/m.wav'' None)),
        Stop (stopAt 13 13 (disk ''/tmp/m.wav'' None)), Start noDevice]" Map.empty]
  by (simp add: hasStream_def newAudioService_def startFails_def device_def noDevice_def)

text \<open>
  C10. A Start in Idle that finds the device and then fails to open or to start
  the stream returns that error and leaves the state Idle, but not the session:
  the samples, the total paused time and the spectrum buffer are cleared and the
  native rate is the one of the device found; the other fields are as before.
\<close>

theorem start_failure_resets:
  assumes "state a = stateIdle" and "\<not> hostApiErr env"
    and "defaultInputDevice env = Some rate"
    and "openedStream env = None \<or> streamStartErr env"
  shows "fst (StartRecording env a)
           = Some (if openedStream env = None then OpenStreamFailed else StartStreamFailed)
         \<and> snd (StartRecording env a)
           = a\<lparr>nativeSR := rate, samples := [], totalPaused := 0, specBuf := []\<rparr>
         \<and> state (snd (StartRecording env a)) = stateIdle"
  using assms by (auto simp: StartRecording_def Let_def split: option.splits)

theorem start_failure_resets_witness:
  "StartRecording ((device 44100 200)\<lparr>streamStartErr := True\<rparr>) idleAfterSession
     = (Some StartStreamFailed,
        \<lparr>state = stateIdle, stream = Some 1, nativeSR = 44100, samples = [], startTime = 0,
         elapsed = 70, pauseStart = 40, totalPaused = 0, specBuf = []\<rparr>)"
  using start_failure_resets
    [of idleAfterSession "(device 44100 200)\<lparr>streamStartErr := True\<rparr>" 44100]
  by (simp add: idleAfterSession_def device_def prod_eq_iff)

subsection \<open>Elapsed time\<close>

text \<open>
  C3, as it is claimed, fails: the paused branch reads the clock twice, and the
  time between the two readings is subtracted from the frozen value. Paused at
  10 after a start at 0, a call that reads 100 and then 101 returns 9 ns, a
  later one that reads 200 and then 203 returns 7 ns, and the claimed value is
  10 ns.
\<close>

theorem paused_elapsed_counterexample:
  "GetElapsedTime 100 101 pausedService = Seconds 9
   \<and> GetElapsedTime 200 203 pausedService = Seconds 7
   \<and> Seconds 9 \<noteq> Seconds 7
   \<and> pauseStart pausedService - startTime pausedService - totalPaused pausedService = 10"
  by (simp add: GetElapsedTime_def pausedService_def Seconds_def)

text \<open>
  C3, amended. While the state is Paused, GetElapsedTime returns
  \<open>pauseStart - startTime - totalPaused\<close> less the time between its two readings
  of the clock; it depends on the current time through that difference only,
  and a call whose two readings agree returns the frozen value itself.
\<close>

theorem paused_elapsed:
  assumes "state a = statePaused"
  shows "GetElapsedTime now1 now2 a
           = Seconds ((pauseStart a - startTime a - totalPaused a) - (now2 - now1))
         \<and> GetElapsedTime now now a = Seconds (pauseStart a - startTime a - totalPaused a)"
proof -
  have "now1 - startTime a - totalPaused a - (now2 - pauseStart a)
          = (pauseStart a - startTime a - totalPaused a) - (now2 - now1)"
    and "now - startTime a - totalPaused a - (now - pauseStart a)
          = pauseStart a - startTime a - totalPaused a"
    by simp_all
  then show ?thesis
    using assms by (simp only: GetElapsedTime_def recordingState.case simp_thms)
qed

theorem paused_elapsed_witness:
  "state pausedService = statePaused
   \<and> GetElapsedTime 100 103 pausedService = Seconds 7
   \<and> GetElapsedTime 100 100 pausedService = Seconds 10
   \<and> GetElapsedTime 500 500 pausedService = Seconds 10"
  using paused_elapsed [of pausedService 100 103 100] paused_elapsed [of pausedService 0 0 500]
  by (simp add: pausedService_def)

text \<open>
  C2, as it is claimed, fails when Stop finds the session paused: the pause is
  closed with one reading of the clock and the elapsed time is taken with a
  later one. Paused at 10 after a start at 0, with the readings 20 and 21, Stop
  freezes 11 ns, where the claim gives 10 ns for either reading as the stop time.
\<close>

theorem stop_elapsed_counterexample:
  "fst (StopRecording (stopAt 20 21 (disk ''/tmp/m.wav'' None)) Map.empty pausedService)
     = Return (Inr ''/tmp/m.wav'')
   \<and> elapsed (fst (snd (StopRecording (stopAt 20 21 (disk ''/tmp/m.wav'' None)) Map.empty
        pausedService))) = 11
   \<and> (20 - startTime pausedService)
       - (totalPaused pausedService + (20 - pauseStart pausedService)) = 10
   \<and> (21 - startTime pausedService)
       - (totalPaused pausedService + (21 - pauseStart pausedService)) = 10"
  by (simp add: StopRecording_def writeWAV_def downsample_def pausedService_def stopAt_def
      disk_def outputSampleRate_def Let_def)

text \<open>
  C2, amended. After a successful Stop, the frozen elapsed value equals
  \<open>(stopTime - startTime) - totalPaused\<close>, where \<open>stopTime\<close> is the reading of the
  clock taken for the elapsed time and, if the session was paused,
  \<open>t - pauseStart\<close> has first been added to \<open>totalPaused\<close>, \<open>t\<close> being the reading
  taken before it in the same call. When the session was recording, or when the
  two readings agree, this is the claimed value.
\<close>

theorem stop_elapsed:
  assumes "StopRecording env fs a = (Return (Inr path), a', fs')"
  shows "elapsed a' = (elapsedNow env - startTime a) - totalPaused a'
         \<and> totalPaused a' = (if state a = statePaused
                               then totalPaused a + (pauseNow env - pauseStart a)
                               else totalPaused a)
         \<and> (state a = statePaused \<and> pauseNow env = elapsedNow env
              \<longrightarrow> elapsed a' = pauseStart a - startTime a - totalPaused a)
         \<and> state a' = stateIdle"
  using assms
  by (auto simp: StopRecording_def Let_def
      split: if_splits option.splits prod.splits outcome.splits sum.splits)

theorem stop_elapsed_witness:
  "StopRecording (stopAt 20 20 (disk ''/tmp/m.wav'' None)) Map.empty pausedService
     = (Return (Inr ''/tmp/m.wav''),
        pausedService\<lparr>totalPaused := 10, elapsed := 10, state := stateIdle\<rparr>,
        [''/tmp/m.wav'' \<mapsto> wavBytes []])
   \<and> elapsed (pausedService\<lparr>totalPaused := 10, elapsed := 10, state := stateIdle\<rparr>)
       = (20 - startTime pausedService) - 10"
proof -
  have s: "StopRecording (stopAt 20 20 (disk ''/tmp/m.wav'' None)) Map.empty pausedService
     = (Return (Inr ''/tmp/m.wav''),
        pausedService\<lparr>totalPaused := 10, elapsed := 10, state := stateIdle\<rparr>,
        [''/tmp/m.wav'' \<mapsto> wavBytes []])"
    by (simp add: StopRecording_def writeWAV_def downsample_def pausedService_def stopAt_def
        disk_def outputSampleRate_def Let_def fwrite_def wavBytes_def wavChunks_def)
  show ?thesis
    using s stop_elapsed [OF s] by (simp add: pausedService_def stopAt_def)
qed

subsection \<open>The container\<close>

lemma de16_le16: "de16 (le16 w) = w"
proof -
  have "ucast (ucast w :: byte) OR push_bit 8 (ucast (ucast (drop_bit 8 w) :: byte)) = w"
    by (rule bit_word_eqI) (auto simp: bit_simps)
  then show ?thesis by (simp add: le16_def)
qed

lemma de32_le32: "de32 (le32 w) = w"
proof -
  have "ucast (ucast w :: byte) OR push_bit 8 (ucast (ucast (drop_bit 8 w) :: byte))
        OR push_bit 16 (ucast (ucast (drop_bit 16 w) :: byte))
        OR push_bit 24 (ucast (ucast (drop_bit 24 w) :: byte)) = w" (is "?l = w")
  proof (rule bit_word_eqI)
    fix n assume n: "n < LENGTH(32)"
    consider "n < 8" | "8 \<le> n" "n < 16" | "16 \<le> n" "n < 24" | "24 \<le> n" "n < 32"
      using n by fastforce
    then show "bit ?l n = bit w n"
      by cases (auto simp: bit_simps)
  qed
  then show ?thesis by (simp add: le32_def)
qed

lemma readSamples_le16: "readSamples (concat (map le16 smp)) = smp"
proof (induction smp)
  case Nil
  then show ?case by simp
next
  case (Cons s smp)
  have "de16 [ucast s, ucast (drop_bit 8 s)] = s"
    using de16_le16 [of s] by (simp add: le16_def)
  with Cons show ?case by (simp add: le16_def)
qed

lemma length_le16s: "length (concat (map le16 smp)) = 2 * length smp"
  by (induction smp) (simp_all add: le16_def)

lemma wavBytes_split: "wavBytes smp = wavHeader smp @ concat (map le16 smp)"
  by (simp add: wavBytes_def wavChunks_def wavHeader_def channels_def outputSampleRate_def
      bitDepth_def)

lemma length_wavHeader: "length (wavHeader smp) = 44"
  by (simp add: wavHeader_def ascii_def le32_def le16_def)

lemma header_fields:
  "take 4 (wavHeader smp @ rest) = ascii ''RIFF''"
  "de32 (take 4 (drop 4 (wavHeader smp @ rest))) = fileSize smp"
  "take 4 (drop 8 (wavHeader smp @ rest)) = ascii ''WAVE''"
  "take 4 (drop 12 (wavHeader smp @ rest)) = ascii ''fmt ''"
  "de32 (take 4 (drop 16 (wavHeader smp @ rest))) = 16"
  "de16 (take 2 (drop 20 (wavHeader smp @ rest))) = 1"
  "de16 (take 2 (drop 22 (wavHeader smp @ rest))) = 1"
  "de32 (take 4 (drop 24 (wavHeader smp @ rest))) = 16000"
  "de32 (take 4 (drop 28 (wavHeader smp @ rest))) = 32000"
  "de16 (take 2 (drop 32 (wavHeader smp @ rest))) = 2"
  "de16 (take 2 (drop 34 (wavHeader smp @ rest))) = 16"
  "take 4 (drop 36 (wavHeader smp @ rest)) = ascii ''data''"
  "de32 (take 4 (drop 40 (wavHeader smp @ rest))) = dataSize smp"
  "drop 44 (wavHeader smp @ rest) = rest"
  using de32_le32 [of "fileSize smp"] de32_le32 [of "dataSize smp"]
  by (simp_all add: wavHeader_def ascii_def le32_def le16_def)

lemma readWAV_wavBytes:
  "readWAV (wavBytes smp) =
     \<lparr>riffTag = ascii ''RIFF'', riffSize = unat (fileSize smp), waveTag = ascii ''WAVE'',
      fmtTag = ascii ''fmt '', fmtSize = 16, audioFormat = 1, numChannels = 1,
      sampleRate = 16000, byteRate = 32000, blockAlign = 2, bitsPerSample = 16,
      dataTag = ascii ''data'', dataBytes = unat (dataSize smp),
      payload = readSamples (take (unat (dataSize smp)) (concat (map le16 smp)))\<rparr>"
  unfolding readWAV_def u16At_def u32At_def wavBytes_split header_fields by simp

text \<open>The two declared sizes are 32-bit values: they are the true sizes modulo \<open>2 ^ 32\<close>.\<close>

lemma sizes_mod:
  "unat (dataSize smp) = (2 * length smp) mod 2 ^ 32"
  "unat (fileSize smp) = (36 + 2 * length smp) mod 2 ^ 32"
  by (simp_all add: dataSize_def fileSize_def unat_word_ariths unat_of_nat mult.commute
      mod_simps)

text \<open>
  C5, as it is claimed, fails for a sequence too long for the 32-bit size fields:
  for \<open>2 ^ 31\<close> samples the container declares a group size of 36 and a data
  size of 0, and reads back as no samples.
\<close>

theorem wav_header_counterexample:
  "riffSize (readWAV (wavBytes (replicate 2147483648 0))) = 36
   \<and> dataBytes (readWAV (wavBytes (replicate 2147483648 0))) = 0
   \<and> payload (readWAV (wavBytes (replicate 2147483648 0))) = []
   \<and> length (replicate 2147483648 (0 :: int16)) = 2147483648"
  by (simp add: readWAV_wavBytes sizes_mod)

text \<open>
  C5, amended. For every sequence of \<open>n\<close> 16-bit samples with \<open>36 + 2n < 2 ^ 32\<close>,
  the container reads back as exactly these samples: the declared group size is
  \<open>36 + 2n\<close>, the declared data size is \<open>2n\<close>, the format sub-block declares PCM
  tag 1, 1 channel, sample rate 16000, byte rate 32000, block alignment 2 and 16
  bits per sample, every integer is little-endian, and the \<open>2n\<close> bytes after the
  44 of the header are the samples, little-endian.
\<close>

theorem wav_header_roundtrip:
  assumes "36 + 2 * length smp < 2 ^ 32"
  shows "readWAV (wavBytes smp) =
     \<lparr>riffTag = ascii ''RIFF'', riffSize = 36 + 2 * length smp, waveTag = ascii ''WAVE'',
      fmtTag = ascii ''fmt '', fmtSize = 16, audioFormat = 1, numChannels = 1,
      sampleRate = 16000, byteRate = 32000, blockAlign = 2, bitsPerSample = 16,
      dataTag = ascii ''data'', dataBytes = 2 * length smp, payload = smp\<rparr>
    \<and> length (wavBytes smp) = 44 + 2 * length smp
    \<and> drop 44 (wavBytes smp) = concat (map le16 smp)"
proof -
  have d: "unat (dataSize smp) = 2 * length smp"
    and f: "unat (fileSize smp) = 36 + 2 * length smp"
    using assms by (simp_all add: sizes_mod)
  have p: "readSamples (take (2 * length smp) (concat (map le16 smp))) = smp"
    using length_le16s [of smp] readSamples_le16 [of smp] by simp
  have l: "length (wavBytes smp) = 44 + 2 * length smp"
    unfolding wavBytes_split length_append length_wavHeader length_le16s ..
  have r: "drop 44 (wavBytes smp) = concat (map le16 smp)"
    unfolding wavBytes_split header_fields ..
  show ?thesis
    using l r by (simp add: readWAV_wavBytes d f p)
qed

theorem wav_header_roundtrip_witness:
  "36 + 2 * length [1, - 2, 1000 :: int16] < (2 :: nat) ^ 32
   \<and> readWAV (wavBytes [1, - 2, 1000]) =
     \<lparr>riffTag = ascii ''RIFF'', riffSize = 42, waveTag = ascii ''WAVE'',
      fmtTag = ascii ''fmt '', fmtSize = 16, audioFormat = 1, numChannels = 1,
      sampleRate = 16000, byteRate = 32000, blockAlign = 2, bitsPerSample = 16,
      dataTag = ascii ''data'', dataBytes = 6, payload = [1, - 2, 1000]\<rparr>
   \<and> drop 44 (wavBytes [1, - 2, 1000]) = [1, 0, 0xFE, 0xFF, 0xE8, 0x03]"
  using wav_header_roundtrip [of "[1, - 2, 1000]"] by (simp add: le16_def)






subsection \<open>The resampler\<close>









text \<open>A rate of zero or below does not resample: the call stops.\<close>

lemma downsample_nonpositive:
  "downsample (atRate 0 [1, 2]) = Panic NonFiniteToInt"
  "downsample (atRate (- 16000) [1, 2]) = Panic MakeSliceLenOutOfRange"
  by (simp_all add: downsample_def atRate_def newAudioService_def outputSampleRate_def
      goInt_def)




subsection \<open>The spectrum analyser\<close>

lemma sumBins_panic: "sumBins mags ks acc = Panic p \<Longrightarrow> p = IndexOutOfRange"
  by (induction mags ks acc rule: sumBins.induct) (auto split: if_splits)

lemma mapOutcome_panic:
  assumes "x \<in> set xs" and "f x = Panic p"
    and "\<forall>y \<in> set xs. \<forall>q. f y = Panic q \<longrightarrow> q = p"
  shows "mapOutcome f xs = Panic p"
  using assms
proof (induction xs)
  case Nil
  then show ?case by simp
next
  case (Cons y ys)
  show ?case
  proof (cases "f y")
    case (Panic q)
    have "q = p" using Cons.prems(3) Panic by simp
    with Panic show ?thesis by simp
  next
    case (Return v)
    have "x \<noteq> y" using Return Cons.prems(2) by auto
    then have 1: "x \<in> set ys" using Cons.prems(1) by simp
    have 2: "\<forall>y \<in> set ys. \<forall>q. f y = Panic q \<longrightarrow> q = p"
      using Cons.prems(3) by simp
    have "mapOutcome f ys = Panic p"
      by (rule Cons.IH [OF 1 Cons.prems(2) 2])
    with Return show ?thesis by simp
  qed
qed

lemma bandRange_bounds:
  "1 \<le> fst (bandRange freqRes maxBin band)"
  "fst (bandRange freqRes maxBin band) \<le> snd (bandRange freqRes maxBin band)"
  "goInt (bandEdge band / freqRes) \<le> fst (bandRange freqRes maxBin band)"
  by (simp_all add: bandRange_def Let_def)

lemma length_magnitudes: "length (magnitudes buf maxBin) = nat (maxBin + 1)"
  by (simp add: magnitudes_def)

lemma bandMagnitude_panic: "bandMagnitude freqRes maxBin mags band = Panic p \<Longrightarrow> p = IndexOutOfRange"
  by (auto simp: bandMagnitude_def split: prod.splits outcome.splits dest: sumBins_panic)

lemma band_panics:
  assumes "int (length mags) \<le> fst (bandRange freqRes maxBin band)"
  shows "bandMagnitude freqRes maxBin mags band = Panic IndexOutOfRange"
proof -
  obtain kLow kHigh where r: "bandRange freqRes maxBin band = (kLow, kHigh)"
    by (cases "bandRange freqRes maxBin band") auto
  have "kLow \<le> kHigh" using bandRange_bounds(2) [of freqRes maxBin band] r by simp
  then have "[kLow .. kHigh] = kLow # [kLow + 1 .. kHigh]" by (simp add: upto_rec1)
  moreover have "\<not> kLow < int (length mags)" using assms r by simp
  ultimately show ?thesis using r by (simp add: bandMagnitude_def)
qed

text \<open>A band whose lower bin lies above the highest evaluated bin stops the call.\<close>

lemma GetSpectrum_band_above:
  assumes "specBuf a \<noteq> []" and "nativeSR a \<noteq> 0"
    and "m = maxBinOf (nativeSR a / real (length (specBuf a))) (length (specBuf a))"
    and "0 \<le> m" and "band < spectrumBands"
    and "m < fst (bandRange (nativeSR a / real (length (specBuf a))) m band)"
  shows "GetSpectrum a = Panic IndexOutOfRange"
proof -
  let ?fr = "nativeSR a / real (length (specBuf a))"
  have "int (length (magnitudes (specBuf a) m)) \<le> fst (bandRange ?fr m band)"
    using assms(4,6) by (simp add: length_magnitudes)
  then have b: "bandMagnitude ?fr m (magnitudes (specBuf a) m) band = Panic IndexOutOfRange"
    by (rule band_panics)
  have "mapOutcome (bandMagnitude ?fr m (magnitudes (specBuf a) m)) [0 ..< spectrumBands]
      = Panic IndexOutOfRange"
  proof (rule mapOutcome_panic [where x = band])
    show "band \<in> set [0 ..< spectrumBands]" using assms(5) by simp
    show "bandMagnitude ?fr m (magnitudes (specBuf a) m) band = Panic IndexOutOfRange"
      by (rule b)
    show "\<forall>y \<in> set [0 ..< spectrumBands]. \<forall>q.
            bandMagnitude ?fr m (magnitudes (specBuf a) m) y = Panic q \<longrightarrow> q = IndexOutOfRange"
      using bandMagnitude_panic by blast
  qed
  then show ?thesis
    using assms(1-4) by (simp add: GetSpectrum_def Let_def)
qed

lemma log_combine:
  assumes "0 < x" and "0 < y"
  shows "log b x + real n * log b y = log b (x * y ^ n)"
  using assms by (simp add: log_mult_pos log_nat_power)

lemma bandEdge_30: "8016 \<le> bandEdge 30"
proof -
  have e: "log 2 80 + (log 2 12000 - log 2 80) * real 30 / real spectrumBands
        = (log 2 80 + real 15 * log 2 12000) / 16"
    by (simp add: spectrumBands_def field_simps)
  have s: "(8016 :: real) ^ 16 \<le> 80 * 12000 ^ 15"
    by simp
  have "real 16 * log 2 8016 = log 2 (8016 ^ 16)"
    by (rule log_nat_power [symmetric]) simp
  also have "\<dots> \<le> log 2 (80 * 12000 ^ 15)"
    by (rule log_mono) (use s in simp_all)
  also have "\<dots> = log 2 80 + real 15 * log 2 12000"
    by (rule log_combine [symmetric]) simp_all
  finally have "log 2 8016 \<le> (log 2 80 + real 15 * log 2 12000) / 16"
    by simp
  then have "2 powr (log 2 8016) \<le> 2 powr ((log 2 80 + real 15 * log 2 12000) / 16)"
    by (simp only: powr_le_cancel_iff [of 2] one_less_numeral_iff num.simps semiring_norm)
  moreover have "2 powr (log 2 8016) = (8016 :: real)"
    by simp
  ultimately show ?thesis
    unfolding bandEdge_def e by simp
qed

lemma goInt_lower:
  assumes "0 \<le> k" and "real_of_int k \<le> x"
  shows "k \<le> goInt x"
  using assms by (simp add: goInt_def le_floor_iff)

text \<open>
  A block of 1024 samples from a 16 kHz device: the bins go up to 512, and band 30
  starts above 8016 Hz, at a bin of 513 or more.
\<close>

lemma GetSpectrum_16kHz_panics:
  assumes "length (specBuf a) = 1024" and "nativeSR a = 16000"
  shows "GetSpectrum a = Panic IndexOutOfRange"
proof (rule GetSpectrum_band_above [where band = 30 and m = 512])
  show "specBuf a \<noteq> []" using assms(1) by auto
  show "nativeSR a \<noteq> 0" using assms(2) by simp
  show "512 = maxBinOf (nativeSR a / real (length (specBuf a))) (length (specBuf a))"
    using assms by (simp add: maxBinOf_def goInt_def)
  show "(0 :: int) \<le> 512" by simp
  show "30 < spectrumBands" by (simp add: spectrumBands_def)
  have "513 \<le> goInt (bandEdge 30 / (16000 / 1024))"
    by (rule goInt_lower) (use bandEdge_30 in simp_all)
  then show "512 < fst (bandRange (nativeSR a / real (length (specBuf a))) 512 30)"
    using bandRange_bounds(3) [of 30 "16000 / 1024" 512] assms by simp
qed


text \<open>A block of one sample: the only bin is 0, and every band starts at bin 1 or above.\<close>

lemma GetSpectrum_one_sample_panics:
  assumes "length (specBuf a) = 1" and "0 < nativeSR a"
  shows "GetSpectrum a = Panic IndexOutOfRange"
proof (rule GetSpectrum_band_above [where band = 0 and m = 0])
  show "specBuf a \<noteq> []" using assms(1) by auto
  show "nativeSR a \<noteq> 0" using assms(2) by simp
  have "0 \<le> goInt (12000 / nativeSR a)"
    using assms(2) by (simp add: goInt_def)
  then show "0 = maxBinOf (nativeSR a / real (length (specBuf a))) (length (specBuf a))"
    using assms(1) by (simp add: maxBinOf_def Let_def)
  show "(0 :: int) \<le> 0" by simp
  show "0 < spectrumBands" by (simp add: spectrumBands_def)
  show "0 < fst (bandRange (nativeSR a / real (length (specBuf a))) 0 0)"
    using bandRange_bounds(1) [of "nativeSR a / real (length (specBuf a))" 0 0] by linarith
qed

text \<open>With no block yet, or with no native rate, the result is 32 zeros.\<close>

lemma GetSpectrum_no_data:
  assumes "specBuf a = [] \<or> nativeSR a = 0"
  shows "GetSpectrum a = Return (replicate 32 0)"
  using assms by (auto simp: GetSpectrum_def spectrumBands_def)

lemma mapOutcome_ReturnD:
  assumes "mapOutcome f xs = Return ys"
  shows "length ys = length xs \<and> (\<forall>y \<in> set ys. \<exists>x \<in> set xs. f x = Return y)"
  using assms
proof (induction xs arbitrary: ys)
  case Nil
  then show ?case by simp
next
  case (Cons x xs)
  from Cons.prems obtain v vs where v: "f x = Return v" and vs: "mapOutcome f xs = Return vs"
    and ys: "ys = v # vs"
    by (auto split: outcome.splits)
  show ?case
    using Cons.IH [OF vs] v ys by auto
qed

lemma dftMag_nonneg: "0 \<le> dftMag buf k"
  by (simp add: dftMag_def Let_def split: prod.splits)

lemma magnitudes_nonneg: "\<forall>v \<in> set (magnitudes buf m). 0 \<le> v"
  by (auto simp: magnitudes_def dftMag_nonneg)

lemma sumBins_nonneg:
  assumes "\<forall>v \<in> set mags. 0 \<le> v" and "0 \<le> fst acc" and "sumBins mags ks acc = Return sc"
  shows "0 \<le> fst sc"
  using assms
proof (induction mags ks acc rule: sumBins.induct)
  case (1 mags acc)
  then show ?case by simp
next
  case (2 mags k ks sm cnt)
  from "2.prems"(3) have r: "0 \<le> k" "k < int (length mags)"
    and s: "sumBins mags ks (sm + mags ! nat k, cnt + 1) = Return sc"
    by (auto split: if_splits)
  have "0 \<le> mags ! nat k" using r "2.prems"(1) by simp
  then have "0 \<le> fst (sm + mags ! nat k, cnt + 1)" using "2.prems"(2) by simp
  then show ?case using "2.IH" r "2.prems"(1) s by simp
qed

lemma bandValue_range:
  assumes "0 \<le> fst sc"
  shows "0 \<le> bandValue sc \<and> bandValue sc \<le> 1"
proof -
  define x where "x = (if snd sc > 0 then fst sc / real (snd sc) else fst sc) / 800"
  have x: "0 \<le> x" using assms by (simp add: x_def)
  have l: "0 \<le> log 10 (x * 9 + 1)" using x by simp
  have "bandValue sc =
      (let normalized = (if x > 0 then log 10 (x * 9 + 1) / log 10 10 else x)
       in if normalized > 1 then 1 else normalized)"
    by (simp add: bandValue_def Let_def x_def)
  then show ?thesis using x l by (simp add: Let_def)
qed

lemma bandMagnitude_range:
  assumes "bandMagnitude freqRes m (magnitudes buf m) band = Return v"
  shows "0 \<le> v \<and> v \<le> 1"
proof -
  obtain kLow kHigh where r: "bandRange freqRes m band = (kLow, kHigh)"
    by (cases "bandRange freqRes m band") auto
  from assms r obtain sc where s: "sumBins (magnitudes buf m) [kLow .. kHigh] (0, 0) = Return sc"
    and v: "v = bandValue sc"
    by (auto simp: bandMagnitude_def split: outcome.splits)
  have "0 \<le> fst sc"
    by (rule sumBins_nonneg [OF magnitudes_nonneg _ s]) simp
  then show ?thesis using bandValue_range v by simp
qed

text \<open>A call that returns gives 32 values, each between 0 and 1.\<close>

lemma GetSpectrum_returns:
  assumes "GetSpectrum a = Return out"
  shows "length out = 32 \<and> (\<forall>v \<in> set out. 0 \<le> v \<and> v \<le> 1)"
proof (cases "specBuf a = [] \<or> nativeSR a = 0")
  case True
  then show ?thesis using assms GetSpectrum_no_data [OF True] by auto
next
  case False
  let ?fr = "nativeSR a / real (length (specBuf a))"
  let ?m = "maxBinOf ?fr (length (specBuf a))"
  from assms False have "mapOutcome (bandMagnitude ?fr ?m (magnitudes (specBuf a) ?m))
      [0 ..< spectrumBands] = Return out"
    by (simp add: GetSpectrum_def Let_def split: if_splits)
  from mapOutcome_ReturnD [OF this] show ?thesis
    using bandMagnitude_range by (fastforce simp: spectrumBands_def)
qed

lemma dft_fold_zero:
  assumes "\<forall>p \<in> set ps. snd p = 0"
  shows "foldl (\<lambda>(re, im) (i, s).
            (re + toFloat s * cos (2 * pi * real_of_int k * real i / real n),
             im - toFloat s * sin (2 * pi * real_of_int k * real i / real n))) acc ps = acc"
  using assms
proof (induction ps arbitrary: acc)
  case Nil
  then show ?case by simp
next
  case (Cons p ps)
  obtain i s where p: "p = (i, s)" by (cases p) auto
  obtain re im where acc: "acc = (re, im)" by (cases acc) auto
  have "s = 0" using Cons.prems p by simp
  then show ?case
    using Cons.IH Cons.prems by (simp add: p acc toFloat_def)
qed

lemma dftMag_silence:
  assumes "\<forall>s \<in> set buf. s = 0"
  shows "dftMag buf k = 0"
proof -
  have "\<forall>p \<in> set (enumerate 0 buf). snd p = 0"
    using assms by (auto simp: in_set_enumerate_eq)
  then show ?thesis
    by (simp add: dftMag_def Let_def dft_fold_zero)
qed

lemma sumBins_zero:
  assumes "\<forall>v \<in> set mags. v = 0" and "fst acc = 0" and "sumBins mags ks acc = Return sc"
  shows "fst sc = 0"
  using assms
proof (induction mags ks acc rule: sumBins.induct)
  case (1 mags acc)
  then show ?case by simp
next
  case (2 mags k ks sm cnt)
  from "2.prems"(3) have r: "0 \<le> k" "k < int (length mags)"
    and s: "sumBins mags ks (sm + mags ! nat k, cnt + 1) = Return sc"
    by (auto split: if_splits)
  have "mags ! nat k = 0" using r "2.prems"(1) by simp
  then have "fst (sm + mags ! nat k, cnt + 1) = 0" using "2.prems"(2) by simp
  then show ?case using "2.IH" r "2.prems"(1) s by simp
qed

lemma bandValue_zero: "fst sc = 0 \<Longrightarrow> bandValue sc = 0"
  by (simp add: bandValue_def Let_def)

text \<open>A call on an all-zero block that returns gives 32 zeros.\<close>

lemma GetSpectrum_silence:
  assumes "\<forall>s \<in> set (specBuf a). s = 0" and "GetSpectrum a = Return out"
  shows "out = replicate 32 0"
proof -
  have z: "\<forall>v \<in> set out. v = 0"
  proof (cases "specBuf a = [] \<or> nativeSR a = 0")
    case True
    then show ?thesis using assms(2) GetSpectrum_no_data [OF True] by auto
  next
    case False
    let ?fr = "nativeSR a / real (length (specBuf a))"
    let ?m = "maxBinOf ?fr (length (specBuf a))"
    have mz: "\<forall>v \<in> set (magnitudes (specBuf a) ?m). v = 0"
      using assms(1) by (auto simp: magnitudes_def dftMag_silence)
    from assms(2) False have "mapOutcome (bandMagnitude ?fr ?m (magnitudes (specBuf a) ?m))
        [0 ..< spectrumBands] = Return out"
      by (simp add: GetSpectrum_def Let_def split: if_splits)
    from mapOutcome_ReturnD [OF this]
    have "\<forall>v \<in> set out. \<exists>band. bandMagnitude ?fr ?m (magnitudes (specBuf a) ?m) band = Return v"
      by blast
    moreover have "v = 0" if "bandMagnitude ?fr ?m (magnitudes (specBuf a) ?m) band = Return v"
      for band v
    proof -
      obtain kLow kHigh where r: "bandRange ?fr ?m band = (kLow, kHigh)"
        by (cases "bandRange ?fr ?m band") auto
      from that r obtain sc
        where s: "sumBins (magnitudes (specBuf a) ?m) [kLow .. kHigh] (0, 0) = Return sc"
          and v: "v = bandValue sc"
        by (auto simp: bandMagnitude_def split: outcome.splits)
      have "fst sc = 0" by (rule sumBins_zero [OF mz _ s]) simp
      then show ?thesis using v by (simp add: bandValue_zero)
    qed
    ultimately show ?thesis by blast
  qed
  have "length out = 32" using GetSpectrum_returns [OF assms(2)] by simp
  then show ?thesis
    using z replicate_length_same [of out 0] by simp
qed

lemma sumBins_in_range:
  assumes "\<forall>k \<in> set ks. 0 \<le> k \<and> k < int (length mags)"
  shows "\<exists>sc. sumBins mags ks acc = Return sc"
  using assms by (induction mags ks acc rule: sumBins.induct) auto

lemma bandRange_upper:
  assumes "fst (bandRange freqRes m band) \<le> m"
  shows "snd (bandRange freqRes m band) \<le> m"
  using assms by (simp add: bandRange_def Let_def split: if_splits)

lemma band_returns:
  assumes "fst (bandRange freqRes m band) \<le> m"
  shows "\<exists>v. bandMagnitude freqRes m (magnitudes buf m) band = Return v"
proof -
  obtain kLow kHigh where r: "bandRange freqRes m band = (kLow, kHigh)"
    by (cases "bandRange freqRes m band") auto
  have "1 \<le> kLow" using bandRange_bounds(1) [of freqRes m band] r by simp
  moreover have "kHigh \<le> m" using bandRange_upper [OF assms] r by simp
  ultimately have "\<forall>k \<in> set [kLow .. kHigh]. 0 \<le> k \<and> k < int (length (magnitudes buf m))"
    by (auto simp: length_magnitudes)
  from sumBins_in_range [OF this, of "(0, 0)"] show ?thesis
    using r by (auto simp: bandMagnitude_def)
qed

lemma mapOutcome_all_Return:
  assumes "\<forall>x \<in> set xs. \<exists>v. f x = Return v"
  shows "\<exists>ys. mapOutcome f xs = Return ys"
  using assms by (induction xs) auto

text \<open>
  The call returns exactly when the lower bin of every band is at most the highest
  evaluated bin.
\<close>

lemma GetSpectrum_returns_iff:
  assumes "specBuf a \<noteq> []" and "nativeSR a \<noteq> 0"
    and "m = maxBinOf (nativeSR a / real (length (specBuf a))) (length (specBuf a))"
  shows "(\<exists>out. GetSpectrum a = Return out)
     \<longleftrightarrow> (\<forall>band < spectrumBands. fst (bandRange (nativeSR a / real (length (specBuf a))) m band) \<le> m)"
proof
  let ?fr = "nativeSR a / real (length (specBuf a))"
  assume ok: "\<forall>band < spectrumBands. fst (bandRange ?fr m band) \<le> m"
  have "1 \<le> fst (bandRange ?fr m 0)" by (rule bandRange_bounds(1))
  moreover have "fst (bandRange ?fr m 0) \<le> m" using ok by (simp add: spectrumBands_def)
  ultimately have m: "1 \<le> m" by linarith
  have "\<forall>band \<in> set [0 ..< spectrumBands].
          \<exists>v. bandMagnitude ?fr m (magnitudes (specBuf a) m) band = Return v"
    using ok band_returns by simp
  from mapOutcome_all_Return [OF this] show "\<exists>out. GetSpectrum a = Return out"
    using assms m by (simp add: GetSpectrum_def Let_def)
next
  let ?fr = "nativeSR a / real (length (specBuf a))"
  assume ret: "\<exists>out. GetSpectrum a = Return out"
  show "\<forall>band < spectrumBands. fst (bandRange ?fr m band) \<le> m"
  proof (intro allI impI, rule ccontr)
    fix band assume b: "band < spectrumBands" and "\<not> fst (bandRange ?fr m band) \<le> m"
    then have above: "m < fst (bandRange ?fr m band)" by simp
    show False
    proof (cases "m + 1 < 0")
      case True
      then have "GetSpectrum a = Panic MakeSliceLenOutOfRange"
        using assms by (simp add: GetSpectrum_def Let_def)
      then show False using ret by simp
    next
      case False
      then have "int (length (magnitudes (specBuf a) m)) \<le> fst (bandRange ?fr m band)"
        using above by (simp add: length_magnitudes)
      then have p: "bandMagnitude ?fr m (magnitudes (specBuf a) m) band = Panic IndexOutOfRange"
        by (rule band_panics)
      have "mapOutcome (bandMagnitude ?fr m (magnitudes (specBuf a) m)) [0 ..< spectrumBands]
          = Panic IndexOutOfRange"
      proof (rule mapOutcome_panic [where x = band])
        show "band \<in> set [0 ..< spectrumBands]" using b by simp
        show "bandMagnitude ?fr m (magnitudes (specBuf a) m) band = Panic IndexOutOfRange"
          by (rule p)
        show "\<forall>y \<in> set [0 ..< spectrumBands]. \<forall>q.
            bandMagnitude ?fr m (magnitudes (specBuf a) m) y = Panic q \<longrightarrow> q = IndexOutOfRange"
          using bandMagnitude_panic by blast
      qed
      then have "GetSpectrum a = Panic IndexOutOfRange"
        using assms False by (simp add: GetSpectrum_def Let_def)
      then show False using ret by simp
    qed
  qed
qed

text \<open>
  C7: the code does not do what is claimed. For a block of 1024 samples at a
  native rate of 16000 Hz the highest evaluated bin is 512 and the magnitude
  array has 513 elements, but band 30 has its lower bin at 513 or above: the
  clamp of \<open>kHigh\<close> to \<open>maxBin\<close> is undone when \<open>kHigh\<close> is raised to \<open>kLow\<close>, and
  the read of \<open>mags[kLow]\<close> is out of range.
\<close>

theorem spectrum_index_out_of_range:
  assumes "length (specBuf a) = 1024" and "nativeSR a = 16000"
  shows "maxBinOf (nativeSR a / real (length (specBuf a))) (length (specBuf a)) = 512
         \<and> length (magnitudes (specBuf a) 512) = 513
         \<and> 513 \<le> fst (bandRange (nativeSR a / real (length (specBuf a))) 512 30)
         \<and> GetSpectrum a = Panic IndexOutOfRange"
proof -
  have "513 \<le> goInt (bandEdge 30 / (16000 / 1024))"
    by (rule goInt_lower) (use bandEdge_30 in simp_all)
  then have "513 \<le> fst (bandRange (nativeSR a / real (length (specBuf a))) 512 30)"
    using bandRange_bounds(3) [of 30 "16000 / 1024" 512] assms by simp
  moreover have "maxBinOf (nativeSR a / real (length (specBuf a))) (length (specBuf a)) = 512"
    using assms by (simp add: maxBinOf_def goInt_def)
  ultimately show ?thesis
    using GetSpectrum_16kHz_panics [OF assms] by (simp add: length_magnitudes)
qed

theorem spectrum_index_out_of_range_witness:
  "length (specBuf (block16k 1000)) = 1024 \<and> nativeSR (block16k 1000) = 16000
   \<and> GetSpectrum (block16k 1000) = Panic IndexOutOfRange"
  using spectrum_index_out_of_range [of "block16k 1000"]
  by (simp add: block16k_def newAudioService_def)

text \<open>
  C6: the code does not do what is claimed. An all-zero block of 1024 samples at
  a native rate of 16000 Hz does not give 32 zeros: the call panics, for the
  reason given under C7. So does a block of one zero sample at 48000 Hz.
\<close>

theorem spectrum_of_silence_panics:
  "GetSpectrum (block16k 0) = Panic IndexOutOfRange
   \<and> GetSpectrum (newAudioService\<lparr>nativeSR := 48000, specBuf := [0]\<rparr>) = Panic IndexOutOfRange"
proof -
  have "GetSpectrum (block16k 0) = Panic IndexOutOfRange"
    by (rule GetSpectrum_16kHz_panics) (simp_all add: block16k_def newAudioService_def)
  moreover have "GetSpectrum (newAudioService\<lparr>nativeSR := 48000, specBuf := [0]\<rparr>)
      = Panic IndexOutOfRange"
    by (rule GetSpectrum_one_sample_panics) (simp_all add: newAudioService_def)
  ultimately show ?thesis by simp
qed

end
